theory Spec2Isabelle
  imports Complex_Main
begin

section \<open>CelebA.py: data model\<close>

text \<open>
  The script \<^verbatim>\<open>src/CelebA.py\<close> fine-tunes and evaluates a VGG-16 classifier.
  Everything numerical is a call into a library (torch, torchvision, sklearn,
  matplotlib); the script's own code is the control flow around those calls. The
  embedding keeps that split: the library calls are the fields of a record of functions
  that every operation takes as its first argument, and the script's own statements are
  translated one by one.

  Exceptions are values. Only the raises that the script's own statements can cause are
  modelled (indexing a column, \<^verbatim>\<open>.item()\<close>, \<^verbatim>\<open>.in_features\<close>, the
  division); a library call is a total function here.
\<close>

datatype error = IndexError | ValueError | AttributeError | ZeroDivisionError

text \<open>\<^verbatim>\<open>experiment_name = 'vgg16_bn_8'\<close> (line 27).\<close>

definition experiment_name :: string where
  "experiment_name = ''vgg16_bn_8''"

text \<open>
  A batch is the pair \<^verbatim>\<open>(images, labels)\<close> a loader yields: the images, and
  the label tensor as its list of rows, one attribute vector per sample. A loader is
  re-iterable; \<open>loader k\<close> is the list of batches its pass number \<open>k\<close> delivers (a
  shuffling loader delivers a different order at each pass).
\<close>

type_synonym 'img batch = "'img list \<times> int list list"
type_synonym 'img loader = "nat \<Rightarrow> 'img batch list"

text \<open>
  A layer of the network: a linear layer with its \<^verbatim>\<open>in_features\<close>,
  \<^verbatim>\<open>out_features\<close> and weights, or any other module with its weights. The network
  is the VGG module: the convolutional part, the classifier (a sequence of layers) and
  the mode flag \<^verbatim>\<open>model.training\<close>.
\<close>

datatype 'w layer = Linear nat nat 'w | Other 'w

record 'w net =
  features :: "'w layer list"
  classifier :: "'w layer list"
  training :: bool

text \<open>\<^verbatim>\<open>model.state_dict()\<close>: the parameters, without the mode flag.\<close>

definition state_dict :: "'w net \<Rightarrow> 'w layer list \<times> 'w layer list" where
  "state_dict m = (features m, classifier m)"

text \<open>
  What the script writes, in order. A line is one \<^verbatim>\<open>print\<close> call, kept as its
  format and arguments:
  \<^item> \<open>Text s\<close>: a literal;
  \<^item> \<open>Progress e n i l loss\<close>: \<^verbatim>\<open>'Epoch: [{}/{}], Step[{}/{}], Loss:{:.4f}'\<close>;
  \<^item> \<open>F1_Score f\<close>: \<^verbatim>\<open>'F1 Score: {}'\<close>;
  \<^item> \<open>Validation_accuracy a\<close>: \<^verbatim>\<open>'Validation accuracy: {}'\<close>.

  An event is one output: a line printed to the console, a line appended to a named
  file (\<^verbatim>\<open>print(..., file=f)\<close> on a file opened with mode \<^verbatim>\<open>'a'\<close>), a plot
  saved by \<^verbatim>\<open>make_plots\<close> (file name, epoch number of the title, the two
  histories), or a \<^verbatim>\<open>torch.save\<close> of a state dict to a named file.
\<close>

datatype line =
    Text string
  | Progress nat nat nat nat real
  | F1_Score real
  | Validation_accuracy real

datatype 'w event =
    Print line
  | Append string line
  | Savefig string nat "nat list" "real list"
  | Save string "'w layer list \<times> 'w layer list"

text \<open>
  The process-wide state: torch's gradient mode (\<^verbatim>\<open>torch.is_grad_enabled()\<close>) and
  the outputs so far.
\<close>

record 'w world =
  grad_enabled :: bool
  trace :: "'w event list"

definition emit :: "'w event list \<Rightarrow> 'w world \<Rightarrow> 'w world" where
  "emit evs w = w\<lparr>trace := trace w @ evs\<rparr>"

text \<open>
  The library. \<open>forward\<close> is \<^verbatim>\<open>model(images)\<close>, one row of logits per image;
  \<open>criterion\<close> is \<^verbatim>\<open>nn.CrossEntropyLoss()\<close>; \<open>backward\<close> is the gradient that
  \<^verbatim>\<open>optimizer.zero_grad(); loss.backward()\<close> leaves on the parameters;
  \<open>step\<close> is \<^verbatim>\<open>optimizer.step()\<close>, which updates the optimizer's own state and
  the network; \<open>adam\<close> is \<^verbatim>\<open>torch.optim.Adam(model.parameters(), lr=...)\<close>;
  \<open>linear_init\<close> gives the weights of a new \<^verbatim>\<open>nn.Linear(in, out)\<close>;
  \<open>f1_score\<close> is sklearn's; \<open>celeba_loader\<close> is
  \<^verbatim>\<open>DataLoader(datasets.CelebA(split=...), batch_size=..., shuffle=...)\<close>.
\<close>

record ('w, 'o, 'g, 'img) torch =
  forward :: "'w net \<Rightarrow> 'img list \<Rightarrow> real list list"
  criterion :: "real list list \<Rightarrow> int list \<Rightarrow> real"
  backward :: "'w net \<Rightarrow> 'img list \<Rightarrow> int list \<Rightarrow> 'g"
  step :: "'o \<Rightarrow> 'g \<Rightarrow> 'w net \<Rightarrow> 'o \<times> 'w net"
  adam :: "'w net \<Rightarrow> real \<Rightarrow> 'o"
  linear_init :: "nat \<Rightarrow> nat \<Rightarrow> 'w"
  f1_score :: "int list \<Rightarrow> int list \<Rightarrow> real"
  celeba_loader :: "string \<Rightarrow> nat \<Rightarrow> bool \<Rightarrow> 'img loader"

section \<open>Tensor operations the script uses\<close>

text \<open>
  \<^verbatim>\<open>labels[:, j]\<close>: column \<open>j\<close> of the label tensor; IndexError when the rows have
  no such column.
\<close>

definition column :: "nat \<Rightarrow> int list list \<Rightarrow> error + int list" where
  "column j labels =
     (if list_all (\<lambda>row. j < length row) labels then Inr (map (\<lambda>row. row ! j) labels)
      else Inl IndexError)"

text \<open>
  \<^verbatim>\<open>(cov_attr + 1) // 2\<close> on one entry of the covariate column. Python's
  \<^verbatim>\<open>//\<close> rounds down, as \<open>div\<close> does on \<open>int\<close>.
\<close>

definition remap_cov :: "int \<Rightarrow> int" where
  "remap_cov v = (v + 1) div 2"

text \<open>\<^verbatim>\<open>t.item()\<close>: the only element of a one-element tensor; ValueError otherwise.\<close>

fun item :: "'a list \<Rightarrow> error + 'a" where
  "item [x] = Inr x"
| "item _ = Inl ValueError"

text \<open>
  The indices of \<^verbatim>\<open>torch.max(outputs.data, 1)\<close>: for each row, the index of its
  first maximal entry; IndexError on a row with no entry.
\<close>

fun argmax_from :: "nat \<Rightarrow> real \<Rightarrow> nat \<Rightarrow> real list \<Rightarrow> nat" where
  "argmax_from best v i [] = best"
| "argmax_from best v i (x # xs) =
     (if v < x then argmax_from i x (Suc i) xs else argmax_from best v (Suc i) xs)"

fun argmax :: "real list \<Rightarrow> error + nat" where
  "argmax [] = Inl IndexError"
| "argmax (x # xs) = Inr (argmax_from 0 x 1 xs)"

fun max_dim1 :: "real list list \<Rightarrow> error + nat list" where
  "max_dim1 [] = Inr []"
| "max_dim1 (row # rows) =
     (case argmax row of
        Inl e \<Rightarrow> Inl e
      | Inr k \<Rightarrow> (case max_dim1 rows of Inl e \<Rightarrow> Inl e | Inr ks \<Rightarrow> Inr (k # ks)))"

section \<open>initialize_model\<close>

text \<open>
  Lines 82 to 90. \<^verbatim>\<open>model.classifier[6]\<close> raises IndexError on a classifier with
  fewer than seven layers, and \<^verbatim>\<open>.in_features\<close> raises AttributeError on a layer
  that is not linear. \<^verbatim>\<open>model.to(device)\<close> moves the parameters and leaves their
  values. The loss function is the library's \<open>criterion\<close>; the function returns the
  network and the optimizer.
\<close>

fun in_features :: "'w layer \<Rightarrow> error + nat" where
  "in_features (Linear i out w) = Inr i"
| "in_features (Other w) = Inl AttributeError"

definition initialize_model ::
  "('w, 'o, 'g, 'img) torch \<Rightarrow> 'w net \<Rightarrow> real \<Rightarrow> nat \<Rightarrow> error + ('w net \<times> 'o)" where
  "initialize_model lib model learning_rate num_classes =
     (if length (classifier model) \<le> 6 then Inl IndexError
      else case in_features (classifier model ! 6) of
        Inl e \<Rightarrow> Inl e
      | Inr num_ftrs \<Rightarrow>
          let model' = model\<lparr>classifier :=
                (classifier model)[6 := Linear num_ftrs num_classes
                                           (linear_init lib num_ftrs num_classes)]\<rparr>
          in Inr (model', adam lib model' learning_rate))"

section \<open>make_plots and train\<close>

text \<open>
  \<^verbatim>\<open>make_plots\<close> (lines 92 to 98) plots the two histories under the title
  \<^verbatim>\<open>'epoch' + str(epoch + 1)\<close> and saves the figure under the experiment's name.
\<close>

definition make_plots :: "nat list \<Rightarrow> real list \<Rightarrow> nat \<Rightarrow> 'w world \<Rightarrow> 'w world" where
  "make_plots step_hist loss_hist epoch w =
     emit [Savefig experiment_name (epoch + 1) step_hist loss_hist] w"

text \<open>
  The body of the inner loop, lines 112 to 137, for batch number \<open>i\<close> of the epoch.
  The state of an iteration is the two histories, the network with its optimizer (both
  mutated in place by the script) and the world. The two column reads are the only
  statements that can raise, and they come before any change of the state. The remapped
  covariate is bound and not used, as in the source, where the call that took it is
  commented out. \<open>n\<close> is \<^verbatim>\<open>len(train_loader)\<close>.
\<close>

definition train_batch ::
  "('w, 'o, 'g, 'img) torch \<Rightarrow> nat \<Rightarrow> nat \<Rightarrow> nat \<Rightarrow> nat \<Rightarrow> 'img batch \<Rightarrow>
   (real list \<times> nat list) \<times> ('w net \<times> 'o) \<times> 'w world \<Rightarrow>
   error + ((real list \<times> nat list) \<times> ('w net \<times> 'o) \<times> 'w world)" where
  "train_batch lib epoch num_epochs n i b st =
     (case (b, st) of ((images, labels), (loss_hist, step_hist), (model, optimizer), w) \<Rightarrow>
      case column 2 labels of
        Inl e \<Rightarrow> Inl e
      | Inr label \<Rightarrow>
      case column 20 labels of
        Inl e \<Rightarrow> Inl e
      | Inr cov_attr0 \<Rightarrow>
          let cov_attr = map remap_cov cov_attr0;
              outputs = forward lib model images;
              loss = criterion lib outputs label;
              (optimizer', model') = step lib optimizer (backward lib model images label) model
          in if (i + 1) mod 100 = 0
             then let ln = Progress (epoch + 1) num_epochs (i + 1) n loss
                  in Inr ((loss_hist @ [loss], step_hist @ [i + 1]), (model', optimizer'),
                          emit [Print ln, Append (experiment_name @ ''.txt'') ln] w)
             else Inr ((loss_hist, step_hist), (model', optimizer'), w))"

text \<open>
  \<^verbatim>\<open>for i, (images, labels) in tqdm(enumerate(train_loader))\<close>: the batches in
  order, \<open>i\<close> counting from the start value. An exception leaves the loop with the state
  before the batch that raised. (The progress bar of tqdm goes to the standard error
  stream and is left out.)
\<close>

fun train_loop ::
  "('w, 'o, 'g, 'img) torch \<Rightarrow> nat \<Rightarrow> nat \<Rightarrow> nat \<Rightarrow> nat \<Rightarrow> 'img batch list \<Rightarrow>
   (real list \<times> nat list) \<times> ('w net \<times> 'o) \<times> 'w world \<Rightarrow>
   error option \<times> (real list \<times> nat list) \<times> ('w net \<times> 'o) \<times> 'w world" where
  "train_loop lib epoch num_epochs n i [] st = (None, st)"
| "train_loop lib epoch num_epochs n i (b # bs) st =
     (case train_batch lib epoch num_epochs n i b st of
        Inl e \<Rightarrow> (Some e, st)
      | Inr st' \<Rightarrow> train_loop lib epoch num_epochs n (Suc i) bs st')"

text \<open>
  \<^verbatim>\<open>for epoch in range(num_epochs)\<close> over the list of epochs still to run: fresh
  histories, one pass over the loader, then the plot of the epoch.
\<close>

fun train_epochs ::
  "('w, 'o, 'g, 'img) torch \<Rightarrow> 'img loader \<Rightarrow> nat \<Rightarrow> nat list \<Rightarrow>
   ('w net \<times> 'o) \<times> 'w world \<Rightarrow> error option \<times> ('w net \<times> 'o) \<times> 'w world" where
  "train_epochs lib train_loader num_epochs [] st = (None, st)"
| "train_epochs lib train_loader num_epochs (epoch # epochs) st =
     (case train_loop lib epoch num_epochs (length (train_loader epoch)) 0
             (train_loader epoch) (([], []), st) of
        (Some e, hist, st') \<Rightarrow> (Some e, st')
      | (None, (loss_hist, step_hist), mo, w) \<Rightarrow>
          train_epochs lib train_loader num_epochs epochs
            (mo, make_plots step_hist loss_hist epoch w))"

text \<open>
  \<^verbatim>\<open>train\<close> (lines 101 to 141). The result is the exception raised, if any, and
  the network, optimizer and world when the function stops.
\<close>

definition train ::
  "('w, 'o, 'g, 'img) torch \<Rightarrow> 'img loader \<Rightarrow> 'w net \<times> 'o \<Rightarrow> nat \<Rightarrow> 'w world \<Rightarrow>
   error option \<times> ('w net \<times> 'o) \<times> 'w world" where
  "train lib train_loader mo num_epochs w =
     (case train_epochs lib train_loader num_epochs [0..<num_epochs] (mo, w) of
        (Some e, st) \<Rightarrow> (Some e, st)
      | (None, mo', w') \<Rightarrow>
          (None, mo', emit [Save (experiment_name @ ''.ckpt'') (state_dict (fst mo'))] w'))"

section \<open>evaluate\<close>

text \<open>The accumulators of the evaluation loop (lines 155 to 158).\<close>

record tally =
  correct :: nat
  total :: nat
  y_true :: "int list"
  y_pred :: "int list"

definition tally0 :: tally where
  "tally0 = \<lparr>correct = 0, total = 0, y_true = [], y_pred = []\<rparr>"

text \<open>
  The body of the loop, lines 160 to 177. The statements that can raise are the two
  column reads, the row-wise maximum and the two \<^verbatim>\<open>.item()\<close> calls; none of them
  follows a change of the network or the world. \<^verbatim>\<open>(label == predicted).sum().item()\<close>
  counts the positions where label and prediction agree.
\<close>

definition eval_batch ::
  "('w, 'o, 'g, 'img) torch \<Rightarrow> 'img batch \<Rightarrow> tally \<times> 'w net \<times> 'w world \<Rightarrow>
   error + (tally \<times> 'w net \<times> 'w world)" where
  "eval_batch lib b st =
     (case (b, st) of ((images, labels), t, model, w) \<Rightarrow>
      case column 2 labels of
        Inl e \<Rightarrow> Inl e
      | Inr label \<Rightarrow>
      case column 20 labels of
        Inl e \<Rightarrow> Inl e
      | Inr cov_attr0 \<Rightarrow>
          let cov_attr = map remap_cov cov_attr0;
              outputs = forward lib model images
          in case max_dim1 outputs of
               Inl e \<Rightarrow> Inl e
             | Inr predicted \<Rightarrow>
             case item label of
               Inl e \<Rightarrow> Inl e
             | Inr yt \<Rightarrow>
             case item predicted of
               Inl e \<Rightarrow> Inl e
             | Inr yp \<Rightarrow>
                 Inr (t\<lparr>y_true := y_true t @ [yt],
                        y_pred := y_pred t @ [int yp],
                        total := total t + length label,
                        correct := correct t +
                          length (filter (\<lambda>(l, p). l = int p) (zip label predicted))\<rparr>,
                      model, w))"

fun eval_loop ::
  "('w, 'o, 'g, 'img) torch \<Rightarrow> 'img batch list \<Rightarrow> tally \<times> 'w net \<times> 'w world \<Rightarrow>
   error option \<times> tally \<times> 'w net \<times> 'w world" where
  "eval_loop lib [] st = (None, st)"
| "eval_loop lib (b # bs) st =
     (case eval_batch lib b st of
        Inl e \<Rightarrow> (Some e, st)
      | Inr st' \<Rightarrow> eval_loop lib bs st')"

text \<open>
  \<^verbatim>\<open>evaluate\<close> (lines 144 to 183), one pass over the loader. \<^verbatim>\<open>model.eval()\<close>
  clears the mode flag; \<^verbatim>\<open>with torch.no_grad()\<close> switches the gradient mode off and
  restores it on the way out, also when an exception leaves the block. After the loop,
  line 179 prints the F1 score, line 180 computes \<^verbatim>\<open>correct / total\<close> (which raises
  on a zero total) and prints the accuracy; line 182 prints the F1 score with no
  \<^verbatim>\<open>file\<close> argument and line 183 prints the accuracy to the file. The division is
  Python's true division, taken here as exact. \<open>eval_enter\<close> is the state in which
  the loop starts: fresh accumulators, the network in evaluation mode, the gradient
  mode off.
\<close>

definition eval_enter :: "'w net \<Rightarrow> 'w world \<Rightarrow> tally \<times> 'w net \<times> 'w world" where
  "eval_enter model w = (tally0, model\<lparr>training := False\<rparr>, w\<lparr>grad_enabled := False\<rparr>)"

definition evaluate ::
  "('w, 'o, 'g, 'img) torch \<Rightarrow> 'img loader \<Rightarrow> 'w net \<Rightarrow> 'w world \<Rightarrow>
   error option \<times> 'w net \<times> 'w world" where
  "evaluate lib val_loader model w =
     (let g = grad_enabled w
      in case eval_loop lib (val_loader 0) (eval_enter model w) of
           (Some e, t, model1, w1) \<Rightarrow> (Some e, model1, w1\<lparr>grad_enabled := g\<rparr>)
         | (None, t, model1, w1) \<Rightarrow>
             let f1 = f1_score lib (y_true t) (y_pred t);
                 w2 = emit [Print (F1_Score f1)] w1
             in if total t = 0 then (Some ZeroDivisionError, model1, w2\<lparr>grad_enabled := g\<rparr>)
                else let accuracy = real (correct t) / real (total t);
                         w3 = emit [Print (Validation_accuracy accuracy),
                                    Print (F1_Score f1),
                                    Append (experiment_name @ ''.txt'')
                                      (Validation_accuracy accuracy)] w2
                     in (None, model1, w3\<lparr>grad_enabled := g\<rparr>))"

section \<open>load_data and main\<close>

text \<open>
  \<^verbatim>\<open>load_data\<close> (lines 32 to 70) builds the three loaders; only the train
  loader shuffles.
\<close>

definition load_data ::
  "('w, 'o, 'g, 'img) torch \<Rightarrow> nat \<Rightarrow> 'img loader \<times> 'img loader \<times> 'img loader" where
  "load_data lib batch_size =
     (celeba_loader lib ''train'' batch_size True,
      celeba_loader lib ''valid'' batch_size False,
      celeba_loader lib ''test'' batch_size False)"

text \<open>
  \<^verbatim>\<open>main\<close> (lines 186 to 205). \<open>pretrained\<close> is the network that
  \<^verbatim>\<open>vgg16_bn(pretrained=True)\<close> returns. The call of \<^verbatim>\<open>train\<close> is commented out
  in the source and so is absent here.
\<close>

definition main ::
  "('w, 'o, 'g, 'img) torch \<Rightarrow> 'w net \<Rightarrow> 'w world \<Rightarrow> error option \<times> 'w world" where
  "main lib pretrained w =
     (let num_epochs = (1::nat);
          num_classes = (2::nat);
          batch_size = (8::nat);
          learning_rate = (1 / 1000 :: real);
          model_name = pretrained;
          w1 = emit [Print (Text ''Loading data...'')] w;
          (train_loader, val_loader, test_loader) = load_data lib batch_size;
          w2 = emit [Print (Text ''Initializing model...'')] w1
      in case initialize_model lib model_name learning_rate num_classes of
           Inl e \<Rightarrow> (Some e, w2)
         | Inr (model, optimizer) \<Rightarrow>
             let w3 = emit [Print (Text ''Start evaluating... \<newline>'')] w2
             in case evaluate lib val_loader model w3 of (e, model', w') \<Rightarrow> (e, w'))"

section \<open>Notions used to state the properties\<close>

text \<open>
  A batch the loops can read: every label row has the two columns the script indexes
  (CelebA rows have 40 attributes).
\<close>

definition has_attrs :: "'img batch \<Rightarrow> bool" where
  "has_attrs b = list_all (\<lambda>row. 20 < length row) (snd b)"

text \<open>
  A batch that holds exactly one sample, for which the network returns one non-empty
  row of logits.
\<close>

definition one_sample :: "('w, 'o, 'g, 'img) torch \<Rightarrow> 'w net \<Rightarrow> 'img batch \<Rightarrow> bool" where
  "one_sample lib model b =
     (has_attrs b \<and> length (snd b) = 1 \<and> length (forward lib model (fst b)) = 1 \<and>
      list_all (\<lambda>row. row \<noteq> []) (forward lib model (fst b)))"

text \<open>
  The target label of every sample of a pass, and the class the network predicts for
  it, both read off the batches without the loop.
\<close>

definition true_labels :: "'img batch list \<Rightarrow> int list" where
  "true_labels bs = concat (map (\<lambda>b. map (\<lambda>row. row ! 2) (snd b)) bs)"

definition predicted_labels ::
  "('w, 'o, 'g, 'img) torch \<Rightarrow> 'w net \<Rightarrow> 'img batch list \<Rightarrow> int list" where
  "predicted_labels lib model bs =
     concat (map (\<lambda>b. map (\<lambda>row. int (projr (argmax row))) (forward lib model (fst b))) bs)"

definition agreements :: "int list \<Rightarrow> int list \<Rightarrow> nat" where
  "agreements ys ps = length (filter (\<lambda>(y, p). y = p) (zip ys ps))"

text \<open>
  The loss of each batch of a pass, in order, as the network and the optimizer change
  from one batch to the next.
\<close>

fun batch_losses ::
  "('w, 'o, 'g, 'img) torch \<Rightarrow> 'img batch list \<Rightarrow> 'w net \<times> 'o \<Rightarrow> real list" where
  "batch_losses lib [] mo = []"
| "batch_losses lib (b # bs) mo =
     (let label = map (\<lambda>row. row ! 2) (snd b);
          (optimizer', model') =
             step lib (snd mo) (backward lib (fst mo) (fst b) label) (fst mo)
      in criterion lib (forward lib (fst mo) (fst b)) label #
         batch_losses lib bs (model', optimizer'))"

text \<open>The (step, loss) pairs of a pass whose step is a multiple of 100.\<close>

definition logged ::
  "('w, 'o, 'g, 'img) torch \<Rightarrow> 'img batch list \<Rightarrow> 'w net \<times> 'o \<Rightarrow> (nat \<times> real) list" where
  "logged lib bs mo =
     filter (\<lambda>(k, l). k mod 100 = 0) (zip [1..<Suc (length bs)] (batch_losses lib bs mo))"

text \<open>The same pairs for a loop that starts counting after \<open>i\<close> batches.\<close>

definition logged_from ::
  "('w, 'o, 'g, 'img) torch \<Rightarrow> nat \<Rightarrow> 'img batch list \<Rightarrow> 'w net \<times> 'o \<Rightarrow> (nat \<times> real) list" where
  "logged_from lib i bs mo =
     filter (\<lambda>(k, l). k mod 100 = 0) (zip [Suc i..<Suc i + length bs] (batch_losses lib bs mo))"

definition progress_events :: "nat \<Rightarrow> nat \<Rightarrow> nat \<Rightarrow> (nat \<times> real) list \<Rightarrow> 'w event list" where
  "progress_events epoch num_epochs n kls =
     concat (map (\<lambda>(k, l). [Print (Progress (epoch + 1) num_epochs k n l),
                             Append (experiment_name @ ''.txt'')
                               (Progress (epoch + 1) num_epochs k n l)]) kls)"

text \<open>Kinds of events.\<close>

fun is_save :: "'w event \<Rightarrow> bool" where
  "is_save (Save f d) = True"
| "is_save _ = False"

fun is_savefig :: "'w event \<Rightarrow> bool" where
  "is_savefig (Savefig f e steps losses) = True"
| "is_savefig _ = False"

fun is_progress :: "'w event \<Rightarrow> bool" where
  "is_progress (Print (Progress e n i l loss)) = True"
| "is_progress (Append f (Progress e n i l loss)) = True"
| "is_progress _ = False"

fun appends_f1 :: "'w event \<Rightarrow> bool" where
  "appends_f1 (Append f (F1_Score x)) = True"
| "appends_f1 _ = False"

text \<open>
  Two batches that differ at most in the covariate: the same images, and row by row the
  same attributes but for column 20.
\<close>

definition cov_variant :: "'img batch \<Rightarrow> 'img batch \<Rightarrow> bool" where
  "cov_variant b b' =
     (fst b' = fst b \<and> list_all2 (\<lambda>r r'. r' = r[20 := r' ! 20]) (snd b) (snd b'))"

section \<open>Concrete inputs\<close>

text \<open>
  A small instance of the library: images are numbers, the logits of image \<open>x\<close> are
  \<open>[x, 1]\<close>, the loss of a batch is the number of its images, and a step counts the
  images seen in the optimizer state.
\<close>

definition demo_lib :: "(nat, nat, nat, nat) torch" where
  "demo_lib =
     \<lparr>forward = (\<lambda>m imgs. map (\<lambda>x. [real x, 1]) imgs),
      criterion = (\<lambda>outs label. real (length outs)),
      backward = (\<lambda>m imgs label. length imgs),
      step = (\<lambda>opt g m. (opt + g, m)),
      adam = (\<lambda>m lr. 0),
      linear_init = (\<lambda>i out. i + out),
      f1_score = (\<lambda>ys ps. if ys = ps then 1 else 0),
      celeba_loader = (\<lambda>split batch_size shuffle k. [])\<rparr>"

text \<open>A network with the classifier of VGG-16: three linear layers among seven.\<close>

definition demo_net :: "nat net" where
  "demo_net =
     \<lparr>features = [Other 0],
      classifier = [Linear 25088 4096 1, Other 0, Other 0, Linear 4096 4096 2, Other 0,
                    Other 0, Linear 4096 1000 3],
      training = True\<rparr>"

definition demo_world :: "nat world" where
  "demo_world = \<lparr>grad_enabled = True, trace = []\<rparr>"

text \<open>
  An attribute row of 40 entries with the given target and covariate, and two loaders:
  one sample per batch, and one batch of two samples.
\<close>

definition attrs :: "int \<Rightarrow> int \<Rightarrow> int list" where
  "attrs target cov = (replicate 40 (-1))[2 := target, 20 := cov]"

definition demo_single :: "nat loader" where
  "demo_single k = [([0], [attrs 1 1]), ([2], [attrs 1 (-1)]), ([0], [attrs 1 (-1)])]"

definition demo_pair :: "nat loader" where
  "demo_pair k = [([0, 2], [attrs 1 1, attrs 1 (-1)])]"

text \<open>
  The single-sample loader with every covariate flipped, and a loader of one hundred
  single-sample batches.
\<close>

definition demo_flipped :: "nat loader" where
  "demo_flipped k = [([0], [attrs 1 (- 1)]), ([2], [attrs 1 1]), ([0], [attrs 1 1])]"

definition demo_hundred :: "nat loader" where
  "demo_hundred k = replicate 100 ([0], [attrs 1 1])"

section \<open>Basic facts\<close>

lemma emit_simps:
  "trace (emit evs w) = trace w @ evs" "grad_enabled (emit evs w) = grad_enabled w"
  by (simp_all add: emit_def)

lemma column_Inr: "list_all (\<lambda>row. j < length row) labels \<Longrightarrow>
  column j labels = Inr (map (\<lambda>row. row ! j) labels)"
  by (simp add: column_def)

lemma column_Inl: "\<not> list_all (\<lambda>row. j < length row) labels \<Longrightarrow> column j labels = Inl IndexError"
  by (simp add: column_def)

lemma has_attrs_columns:
  assumes "has_attrs b"
  shows "column 2 (snd b) = Inr (map (\<lambda>row. row ! 2) (snd b))"
    and "column 20 (snd b) = Inr (map (\<lambda>row. row ! 20) (snd b))"
proof -
  from assms have *: "list_all (\<lambda>row. 20 < length row) (snd b)" by (simp add: has_attrs_def)
  then have "list_all (\<lambda>row. 2 < length row) (snd b)"
    by (induction "snd b" arbitrary: b) (auto simp: list_all_iff)
  then show "column 2 (snd b) = Inr (map (\<lambda>row. row ! 2) (snd b))" by (rule column_Inr)
  from * show "column 20 (snd b) = Inr (map (\<lambda>row. row ! 20) (snd b))" by (rule column_Inr)
qed

lemma max_dim1_Inr: "list_all (\<lambda>row. row \<noteq> []) outs \<Longrightarrow>
  max_dim1 outs = Inr (map (\<lambda>row. projr (argmax row)) outs)"
proof (induction outs)
  case Nil
  then show ?case by simp
next
  case (Cons row outs)
  then show ?case by (cases row) simp_all
qed

lemma max_dim1_Inl: "\<not> list_all (\<lambda>row. row \<noteq> []) outs \<Longrightarrow> max_dim1 outs = Inl IndexError"
proof (induction outs)
  case Nil
  then show ?case by simp
next
  case (Cons row outs)
  then show ?case by (cases row) (auto split: sum.splits)
qed

lemma item_Inr: "item xs = Inr x \<longleftrightarrow> xs = [x]"
  by (cases xs rule: item.cases) auto

lemma item_Inl: "length xs \<noteq> 1 \<Longrightarrow> item xs = Inl ValueError"
  by (cases xs rule: item.cases) auto

lemma eval_batch_frame:
  "eval_batch lib b (t, m, w) = Inr (t', m', w') \<Longrightarrow> m' = m \<and> w' = w"
  by (auto simp: eval_batch_def Let_def split: prod.splits sum.splits)

lemma eval_batch_one_sample:
  assumes "one_sample lib m b"
  shows "eval_batch lib b (t, m, w) =
    Inr (t\<lparr>y_true := y_true t @ true_labels [b],
           y_pred := y_pred t @ predicted_labels lib m [b],
           total := total t + 1,
           correct := correct t + agreements (true_labels [b]) (predicted_labels lib m [b])\<rparr>, m, w)"
proof -
  obtain images labels where b: "b = (images, labels)" by (cases b)
  from assms b obtain row where labels: "labels = [row]"
    by (cases labels) (auto simp: one_sample_def)
  from assms b obtain out where out: "forward lib m images = [out]" and ne: "out \<noteq> []"
    by (cases "forward lib m images") (auto simp: one_sample_def)
  from assms have cols: "column 2 (snd b) = Inr (map (\<lambda>row. row ! 2) (snd b))"
    "column 20 (snd b) = Inr (map (\<lambda>row. row ! 20) (snd b))"
    by (auto simp: one_sample_def dest: has_attrs_columns)
  have mx: "max_dim1 [out] = Inr [projr (argmax out)]"
    using ne max_dim1_Inr [of "[out]"] by simp
  show ?thesis
    using cols mx
    by (simp add: eval_batch_def b labels out true_labels_def predicted_labels_def agreements_def)
qed

lemma eval_batch_not_one_sample:
  assumes "\<not> one_sample lib m b"
  shows "\<exists>e. eval_batch lib b (t, m, w) = Inl e"
proof -
  obtain images labels where b: "b = (images, labels)" by (cases b)
  show ?thesis
  proof (cases "has_attrs b")
    case False
    then have "\<not> list_all (\<lambda>row. 20 < length row) labels" by (simp add: has_attrs_def b)
    then have "column 20 labels = Inl IndexError" by (rule column_Inl)
    then show ?thesis by (auto simp: eval_batch_def b split: sum.splits)
  next
    case True
    note cols = has_attrs_columns [OF True, unfolded b snd_conv]
    show ?thesis
    proof (cases "list_all (\<lambda>row. row \<noteq> []) (forward lib m images)")
      case False
      then have "max_dim1 (forward lib m images) = Inl IndexError" by (rule max_dim1_Inl)
      then show ?thesis using cols by (simp add: eval_batch_def b)
    next
      case ne: True
      note mx = max_dim1_Inr [OF ne]
      show ?thesis
      proof (cases "length labels = 1")
        case False
        then have "item (map (\<lambda>row. row ! 2) labels) = Inl ValueError"
          by (intro item_Inl) simp
        then show ?thesis using cols mx by (simp add: eval_batch_def b)
      next
        case l1: True
        with assms True ne have "length (forward lib m images) \<noteq> 1"
          by (auto simp: one_sample_def b)
        then have "item (map (\<lambda>row. projr (argmax row)) (forward lib m images)) = Inl ValueError"
          by (intro item_Inl) simp
        then show ?thesis using cols mx by (auto simp: eval_batch_def b split: sum.splits)
      qed
    qed
  qed
qed

lemma argmax_from_first_max:
  assumes "best < length pre" "pre ! best = v" "\<forall>x\<in>set pre. x \<le> v" "\<forall>j<best. pre ! j < v"
    and "i = length pre"
  shows "argmax_from best v i xs < length (pre @ xs) \<and>
         (\<forall>x\<in>set (pre @ xs). x \<le> (pre @ xs) ! argmax_from best v i xs) \<and>
         (\<forall>j<argmax_from best v i xs. (pre @ xs) ! j < (pre @ xs) ! argmax_from best v i xs)"
  using assms
proof (induction xs arbitrary: best v i pre)
  case Nil
  then show ?case by simp
next
  case (Cons x xs)
  show ?case
  proof (cases "v < x")
    case True
    have 1: "i < length (pre @ [x])" using Cons.prems by simp
    have 2: "(pre @ [x]) ! i = x" using Cons.prems by simp
    have 3: "\<forall>y\<in>set (pre @ [x]). y \<le> x" using Cons.prems True by auto
    have 4: "\<forall>j<i. (pre @ [x]) ! j < x"
      using Cons.prems True by (auto simp: nth_append) (metis le_less_trans nth_mem)
    have 5: "Suc i = length (pre @ [x])" using Cons.prems by simp
    from Cons.IH [OF 1 2 3 4 5] True show ?thesis by simp
  next
    case False
    have 1: "best < length (pre @ [x])" using Cons.prems by simp
    have 2: "(pre @ [x]) ! best = v" using Cons.prems by (simp add: nth_append)
    have 3: "\<forall>y\<in>set (pre @ [x]). y \<le> v" using Cons.prems False by auto
    have 4: "\<forall>j<best. (pre @ [x]) ! j < v" using Cons.prems by (simp add: nth_append)
    have 5: "Suc i = length (pre @ [x])" using Cons.prems by simp
    from Cons.IH [OF 1 2 3 4 5] False show ?thesis by simp
  qed
qed

lemma argmax_first_max:
  assumes "argmax row = Inr k"
  shows "k < length row \<and> (\<forall>x\<in>set row. x \<le> row ! k) \<and> (\<forall>j<k. row ! j < row ! k)"
proof (cases row)
  case Nil
  with assms show ?thesis by simp
next
  case (Cons x xs)
  with assms have k: "k = argmax_from 0 x 1 xs" by simp
  from argmax_from_first_max [of 0 "[x]" x 1 xs] show ?thesis
    unfolding k Cons by simp
qed

section \<open>The covariate remapping\<close>

text \<open>
  C2. For a covariate value \<open>v\<close> that is \<open>-1\<close> or \<open>1\<close>, the remapping
  \<^verbatim>\<open>(v + 1) // 2\<close> of both loops gives \<open>0\<close> for \<open>-1\<close> and \<open>1\<close> for \<open>1\<close>, in exact
  integer arithmetic.
\<close>

theorem remap_cov_exact:
  assumes "v = - 1 \<or> v = 1"
  shows "remap_cov v = (if v = - 1 then 0 else 1)"
  using assms by (auto simp: remap_cov_def)

theorem remap_cov_exact_witness:
  "remap_cov (- 1) = 0 \<and> remap_cov 1 = 1"
  using remap_cov_exact [of "- 1"] remap_cov_exact [of 1] by simp

section \<open>Replacing the classification head\<close>

lemma initialize_model_Inr_iff:
  "(\<exists>r. initialize_model lib model lr num_classes = Inr r) \<longleftrightarrow>
   (6 < length (classifier model) \<and> (\<exists>n k w0. classifier model ! 6 = Linear n k w0))"
  by (cases "classifier model ! 6") (auto simp: initialize_model_def Let_def)

text \<open>
  C4. On a network whose classifier has a linear layer at index 6,
  \<^verbatim>\<open>initialize_model\<close> returns a network in which that layer is a new linear layer
  with the in-feature count read from the old one and the configured number of classes
  as out-feature count, and in which every other layer, the convolutional part and the
  mode flag are as before.
\<close>

theorem initialize_model_replaces_head:
  assumes "6 < length (classifier model)"
    and "classifier model ! 6 = Linear n k w0"
  shows "\<exists>model' optimizer.
           initialize_model lib model lr num_classes = Inr (model', optimizer) \<and>
           classifier model' ! 6 = Linear n num_classes (linear_init lib n num_classes) \<and>
           length (classifier model') = length (classifier model) \<and>
           take 6 (classifier model') = take 6 (classifier model) \<and>
           drop 7 (classifier model') = drop 7 (classifier model) \<and>
           features model' = features model \<and>
           training model' = training model"
  using assms by (simp add: initialize_model_def Let_def)

theorem initialize_model_replaces_head_witness:
  "6 < length (classifier demo_net) \<and>
   classifier demo_net ! 6 = Linear 4096 1000 3 \<and>
   (\<exists>model' optimizer.
      initialize_model demo_lib demo_net (1 / 1000) 2 = Inr (model', optimizer) \<and>
      classifier model' ! 6 = Linear 4096 2 (linear_init demo_lib 4096 2) \<and>
      length (classifier model') = length (classifier demo_net) \<and>
      take 6 (classifier model') = take 6 (classifier demo_net) \<and>
      drop 7 (classifier model') = drop 7 (classifier demo_net) \<and>
      features model' = features demo_net \<and>
      training model' = training demo_net)"
proof -
  have len: "6 < length (classifier demo_net)"
    by (simp add: demo_net_def)
  have head: "classifier demo_net ! 6 = Linear 4096 1000 3"
    by (simp add: demo_net_def)
  from initialize_model_replaces_head [OF len head, of demo_lib "1 / 1000" 2] len head
  show ?thesis by blast
qed

section \<open>The evaluation loop\<close>

lemma one_sample_lengths:
  assumes "list_all (one_sample lib m) bs"
  shows "length (true_labels bs) = length bs" and "length (predicted_labels lib m bs) = length bs"
  using assms
  by (induction bs) (simp_all add: true_labels_def predicted_labels_def one_sample_def)

lemma true_labels_Cons: "true_labels (b # bs) = true_labels [b] @ true_labels bs"
  by (simp add: true_labels_def)

lemma predicted_labels_Cons:
  "predicted_labels lib m (b # bs) = predicted_labels lib m [b] @ predicted_labels lib m bs"
  by (simp add: predicted_labels_def)

lemma agreements_append:
  "length ys = length ps \<Longrightarrow> agreements (ys @ ys') (ps @ ps') = agreements ys ps + agreements ys' ps'"
  by (simp add: agreements_def)

lemma agreements_le: "agreements ys ps \<le> length ys"
proof -
  have "agreements ys ps \<le> length (zip ys ps)"
    unfolding agreements_def by (rule length_filter_le)
  then show ?thesis by simp
qed

lemma eval_loop_frame:
  "eval_loop lib bs (t, m, w) = (e, t', m', w') \<Longrightarrow> m' = m \<and> w' = w"
proof (induction bs arbitrary: t)
  case Nil
  then show ?case by simp
next
  case (Cons b bs)
  show ?case
  proof (cases "eval_batch lib b (t, m, w)")
    case (Inl err)
    with Cons.prems show ?thesis by simp
  next
    case (Inr st)
    obtain t1 m1 w1 where st: "st = (t1, m1, w1)" by (cases st)
    from Inr st have "m1 = m \<and> w1 = w" by (auto dest: eval_batch_frame)
    with Cons.prems Inr st have "eval_loop lib bs (t1, m, w) = (e, t', m', w')" by simp
    then show ?thesis by (rule Cons.IH)
  qed
qed

lemma eval_loop_one_sample:
  assumes "list_all (one_sample lib m) bs"
  shows "eval_loop lib bs (t, m, w) =
    (None, t\<lparr>y_true := y_true t @ true_labels bs,
             y_pred := y_pred t @ predicted_labels lib m bs,
             total := total t + length bs,
             correct := correct t + agreements (true_labels bs) (predicted_labels lib m bs)\<rparr>, m, w)"
  using assms
proof (induction bs arbitrary: t)
  case Nil
  then show ?case by (simp add: true_labels_def predicted_labels_def agreements_def)
next
  case (Cons b bs)
  then have b: "one_sample lib m b" and bs: "list_all (one_sample lib m) bs" by simp_all
  from b have len: "length (true_labels [b]) = length (predicted_labels lib m [b])"
    using one_sample_lengths [of lib m "[b]"] by simp
  show ?case
    by (simp add: eval_batch_one_sample [OF b] Cons.IH [OF bs]
        true_labels_Cons [of b bs] predicted_labels_Cons [of lib m b bs]
        agreements_append [OF len])
qed

lemma eval_loop_not_one_sample:
  assumes "\<not> list_all (one_sample lib m) bs"
  shows "\<exists>e t'. eval_loop lib bs (t, m, w) = (Some e, t', m, w)"
  using assms
proof (induction bs arbitrary: t)
  case Nil
  then show ?case by simp
next
  case (Cons b bs)
  show ?case
  proof (cases "one_sample lib m b")
    case False
    then obtain e where "eval_batch lib b (t, m, w) = Inl e"
      using eval_batch_not_one_sample by blast
    then show ?thesis by simp
  next
    case True
    with Cons.prems have "\<not> list_all (one_sample lib m) bs" by simp
    from Cons.IH [OF this] show ?thesis
      by (simp add: eval_batch_one_sample [OF True])
  qed
qed

text \<open>
  What \<^verbatim>\<open>evaluate\<close> does on a non-empty validation pass. It reports an accuracy
  exactly when every batch holds one sample (one attribute row with the columns the loop
  reads, one non-empty row of logits); the accuracy it prints and appends is then the
  number of samples whose target label equals the predicted class, divided by the number
  of samples, both natural numbers, and lies between 0 and 1. On any other non-empty
  pass it raises and reports nothing.
\<close>

lemma evaluate_accuracy:
  assumes "val_loader 0 \<noteq> []"
  shows "let bs = val_loader 0;
             model0 = model\<lparr>training := False\<rparr>;
             ys = true_labels bs;
             ps = predicted_labels lib model0 bs;
             a = real (agreements ys ps) / real (length ys)
         in if list_all (one_sample lib model0) bs
            then evaluate lib val_loader model w =
                   (None, model0,
                    emit [Print (F1_Score (f1_score lib ys ps)),
                          Print (Validation_accuracy a),
                          Print (F1_Score (f1_score lib ys ps)),
                          Append (experiment_name @ ''.txt'') (Validation_accuracy a)] w) \<and>
                 length ys = length bs \<and> agreements ys ps \<le> length ys \<and> 0 \<le> a \<and> a \<le> 1
            else \<exists>e. evaluate lib val_loader model w = (Some e, model0, w)"
proof -
  define bs where "bs = val_loader 0"
  define model0 where "model0 = model\<lparr>training := False\<rparr>"
  define ys where "ys = true_labels bs"
  define ps where "ps = predicted_labels lib model0 bs"
  define a where "a = real (agreements ys ps) / real (length ys)"
  have ne: "bs \<noteq> []" using assms by (simp add: bs_def)
  have "if list_all (one_sample lib model0) bs
            then evaluate lib val_loader model w =
                   (None, model0,
                    emit [Print (F1_Score (f1_score lib ys ps)),
                          Print (Validation_accuracy a),
                          Print (F1_Score (f1_score lib ys ps)),
                          Append (experiment_name @ ''.txt'') (Validation_accuracy a)] w) \<and>
                 length ys = length bs \<and> agreements ys ps \<le> length ys \<and> 0 \<le> a \<and> a \<le> 1
            else \<exists>e. evaluate lib val_loader model w = (Some e, model0, w)"
  proof (cases "list_all (one_sample lib model0) bs")
    case True
    have len: "length ys = length bs"
      unfolding ys_def by (rule one_sample_lengths [OF True])
    have le: "agreements ys ps \<le> length ys" by (rule agreements_le)
    from ne len have pos: "0 < length ys" by simp
    have a0: "0 \<le> a" unfolding a_def by simp
    have a1: "a \<le> 1" unfolding a_def using le pos by simp
    have run: "evaluate lib val_loader model w =
                   (None, model0,
                    emit [Print (F1_Score (f1_score lib ys ps)),
                          Print (Validation_accuracy a),
                          Print (F1_Score (f1_score lib ys ps)),
                          Append (experiment_name @ ''.txt'') (Validation_accuracy a)] w)"
      using ne len
      by (simp add: evaluate_def eval_enter_def tally0_def bs_def [symmetric] model0_def [symmetric]
          eval_loop_one_sample [OF True] ys_def [symmetric] ps_def [symmetric] a_def emit_def Let_def)
    from True run len le a0 a1 show ?thesis by simp
  next
    case False
    from eval_loop_not_one_sample [OF False]
    obtain e t' where "eval_loop lib bs (tally0, model0, w\<lparr>grad_enabled := False\<rparr>) =
        (Some e, t', model0, w\<lparr>grad_enabled := False\<rparr>)" by blast
    then have "evaluate lib val_loader model w = (Some e, model0, w)"
      by (simp add: evaluate_def eval_enter_def bs_def [symmetric] model0_def [symmetric])
    with False show ?thesis by auto
  qed
  then show ?thesis
    unfolding Let_def bs_def model0_def ys_def ps_def a_def .
qed

lemma evaluate_accuracy_demo:
  "demo_single 0 \<noteq> [] \<and>
   list_all (one_sample demo_lib (demo_net\<lparr>training := False\<rparr>)) (demo_single 0) \<and>
   evaluate demo_lib demo_single demo_net demo_world =
     (None, demo_net\<lparr>training := False\<rparr>,
      emit [Print (F1_Score 0), Print (Validation_accuracy (2 / 3)), Print (F1_Score 0),
            Append (experiment_name @ ''.txt'') (Validation_accuracy (2 / 3))] demo_world) \<and>
   \<not> list_all (one_sample demo_lib (demo_net\<lparr>training := False\<rparr>)) (demo_pair 0) \<and>
   (\<exists>e. evaluate demo_lib demo_pair demo_net demo_world =
           (Some e, demo_net\<lparr>training := False\<rparr>, demo_world))"
proof -
  have ne: "demo_single 0 \<noteq> []" by (simp add: demo_single_def)
  have ne': "demo_pair 0 \<noteq> []" by (simp add: demo_pair_def)
  have ok: "list_all (one_sample demo_lib (demo_net\<lparr>training := False\<rparr>)) (demo_single 0)"
    by (simp add: one_sample_def has_attrs_def demo_lib_def demo_single_def attrs_def)
  have ko: "\<not> list_all (one_sample demo_lib (demo_net\<lparr>training := False\<rparr>)) (demo_pair 0)"
    by (simp add: one_sample_def has_attrs_def demo_lib_def demo_pair_def attrs_def)
  have ys: "true_labels (demo_single 0) = [1, 1, 1]"
    by (simp add: true_labels_def demo_single_def attrs_def)
  have ps: "predicted_labels demo_lib (demo_net\<lparr>training := False\<rparr>) (demo_single 0) = [1, 0, 1]"
    by (simp add: predicted_labels_def demo_single_def demo_lib_def)
  have ag: "agreements [1, 1, 1] [1, 0, 1] = 2"
    by (simp add: agreements_def)
  have f1: "f1_score demo_lib [1, 1, 1] [1, 0, 1] = 0"
    by (simp add: demo_lib_def)
  from evaluate_accuracy [where val_loader = demo_single and lib = demo_lib and model = demo_net
      and w = demo_world, OF ne] ok
  have run: "evaluate demo_lib demo_single demo_net demo_world =
     (None, demo_net\<lparr>training := False\<rparr>,
      emit [Print (F1_Score 0), Print (Validation_accuracy (2 / 3)), Print (F1_Score 0),
            Append (experiment_name @ ''.txt'') (Validation_accuracy (2 / 3))] demo_world)"
    by (simp add: Let_def ys ps ag f1)
  from evaluate_accuracy [where val_loader = demo_pair and lib = demo_lib and model = demo_net
      and w = demo_world, OF ne'] ko
  have "\<exists>e. evaluate demo_lib demo_pair demo_net demo_world =
           (Some e, demo_net\<lparr>training := False\<rparr>, demo_world)"
    by (simp add: Let_def)
  with ne ok run ko show ?thesis by blast
qed

lemma evaluate_cases:
  obtains (raised) e where
      "evaluate lib val_loader model w = (Some e, model\<lparr>training := False\<rparr>, w)"
  | (empty) f where
      "evaluate lib val_loader model w =
         (Some ZeroDivisionError, model\<lparr>training := False\<rparr>, emit [Print (F1_Score f)] w)"
  | (reported) f a where
      "evaluate lib val_loader model w =
         (None, model\<lparr>training := False\<rparr>,
          emit [Print (F1_Score f), Print (Validation_accuracy a), Print (F1_Score f),
                Append (experiment_name @ ''.txt'') (Validation_accuracy a)] w)"
proof -
  obtain e t m1 w1 where loop:
    "eval_loop lib (val_loader 0) (tally0, model\<lparr>training := False\<rparr>, w\<lparr>grad_enabled := False\<rparr>) =
       (e, t, m1, w1)"
    using prod_cases4 by blast
  then have fr: "m1 = model\<lparr>training := False\<rparr>" "w1 = w\<lparr>grad_enabled := False\<rparr>"
    by (auto dest: eval_loop_frame)
  show thesis
  proof (cases e)
    case (Some err)
    with loop fr have "evaluate lib val_loader model w = (Some err, model\<lparr>training := False\<rparr>, w)"
      by (simp add: evaluate_def eval_enter_def)
    then show thesis by (rule raised)
  next
    case None
    show thesis
    proof (cases "total t = 0")
      case True
      with loop fr None have "evaluate lib val_loader model w =
         (Some ZeroDivisionError, model\<lparr>training := False\<rparr>,
          emit [Print (F1_Score (f1_score lib (y_true t) (y_pred t)))] w)"
        by (simp add: evaluate_def eval_enter_def emit_def Let_def)
      then show thesis by (rule empty)
    next
      case False
      with loop fr None have "evaluate lib val_loader model w =
         (None, model\<lparr>training := False\<rparr>,
          emit [Print (F1_Score (f1_score lib (y_true t) (y_pred t))),
                Print (Validation_accuracy (real (correct t) / real (total t))),
                Print (F1_Score (f1_score lib (y_true t) (y_pred t))),
                Append (experiment_name @ ''.txt'')
                  (Validation_accuracy (real (correct t) / real (total t)))] w)"
        by (simp add: evaluate_def eval_enter_def emit_def Let_def)
      then show thesis by (rule reported)
    qed
  qed
qed

text \<open>
  Whatever the input, \<^verbatim>\<open>evaluate\<close> appends no F1 line to any file: line 182 has
  no \<^verbatim>\<open>file\<close> argument.
\<close>

lemma evaluate_never_appends_f1:
  "filter appends_f1 (trace (snd (snd (evaluate lib val_loader model w)))) =
   filter appends_f1 (trace w)"
  by (cases lib val_loader model w rule: evaluate_cases) (simp_all add: emit_def)

text \<open>
  C1. On three single-sample batches the evaluation completes; the F1 score is printed
  to the console twice, and the only line appended to the log file is the accuracy.
\<close>

theorem evaluate_log_file_without_f1:
  "evaluate demo_lib demo_single demo_net demo_world =
     (None, demo_net\<lparr>training := False\<rparr>,
      \<lparr>grad_enabled = True,
       trace = [Print (F1_Score 0), Print (Validation_accuracy (2 / 3)), Print (F1_Score 0),
                Append ''vgg16_bn_8.txt'' (Validation_accuracy (2 / 3))]\<rparr>)"
  by (simp add: evaluate_def eval_enter_def tally0_def demo_lib_def demo_single_def demo_net_def
      demo_world_def attrs_def eval_batch_def column_def emit_def experiment_name_def Let_def)

text \<open>
  C3. On a validation pass that is not empty and whose first batch holds two or more
  samples (as every pass of the loader that \<^verbatim>\<open>main\<close> builds with batch size 8),
  \<^verbatim>\<open>evaluate\<close> raises in the first iteration, whatever the library, the network
  and the remaining batches: nothing is printed or appended, so no accuracy is reported.
\<close>

theorem evaluate_batch_reports_no_accuracy:
  "\<exists>e. evaluate lib (\<lambda>k. (images, row1 # row2 # rows) # bs) model w =
          (Some e, model\<lparr>training := False\<rparr>, w)"
proof -
  have "\<not> one_sample lib (model\<lparr>training := False\<rparr>) (images, row1 # row2 # rows)"
    by (simp add: one_sample_def)
  then have "\<not> list_all (one_sample lib (model\<lparr>training := False\<rparr>))
                 ((images, row1 # row2 # rows) # bs)"
    by simp
  from eval_loop_not_one_sample [OF this]
  obtain e t' where
    "eval_loop lib ((images, row1 # row2 # rows) # bs)
       (tally0, model\<lparr>training := False\<rparr>, w\<lparr>grad_enabled := False\<rparr>) =
     (Some e, t', model\<lparr>training := False\<rparr>, w\<lparr>grad_enabled := False\<rparr>)"
    by blast
  then have "evaluate lib (\<lambda>k. (images, row1 # row2 # rows) # bs) model w =
      (Some e, model\<lparr>training := False\<rparr>, w)"
    by (simp add: evaluate_def eval_enter_def)
  then show ?thesis ..
qed

text \<open>
  C5. On one batch of two samples \<^verbatim>\<open>label.item()\<close> raises ValueError: no
  label pair is accumulated and nothing is reported.
\<close>

theorem evaluate_batch_of_two_raises:
  "evaluate demo_lib demo_pair demo_net demo_world =
     (Some ValueError, demo_net\<lparr>training := False\<rparr>, demo_world)"
  by (simp add: evaluate_def eval_enter_def tally0_def demo_lib_def demo_pair_def demo_net_def
      demo_world_def attrs_def eval_batch_def column_def emit_def experiment_name_def Let_def)

text \<open>
  C8. After any number \<open>k\<close> of iterations of the evaluation loop (whether or not one of
  them raised) the gradient mode is off and the parameters are those of the network that
  was passed in; when \<^verbatim>\<open>evaluate\<close> stops, normally or by an exception, the
  parameters are still the same, the network is in evaluation mode and the gradient mode
  is what it was before the call.
\<close>

theorem evaluate_no_grad_no_update:
  "(case eval_loop lib (take k (val_loader 0)) (eval_enter model w) of
      (e, t, model_k, w_k) \<Rightarrow> \<not> grad_enabled w_k \<and> state_dict model_k = state_dict model) \<and>
   (case evaluate lib val_loader model w of
      (e, model', w') \<Rightarrow> state_dict model' = state_dict model \<and> \<not> training model' \<and>
         grad_enabled w' = grad_enabled w)"
proof
  obtain e t model_k w_k where loop:
    "eval_loop lib (take k (val_loader 0)) (tally0, model\<lparr>training := False\<rparr>, w\<lparr>grad_enabled := False\<rparr>)
       = (e, t, model_k, w_k)"
    using prod_cases4 by blast
  then have "model_k = model\<lparr>training := False\<rparr>" "w_k = w\<lparr>grad_enabled := False\<rparr>"
    by (auto dest: eval_loop_frame)
  with loop show "case eval_loop lib (take k (val_loader 0)) (eval_enter model w) of
      (e, t, model_k, w_k) \<Rightarrow> \<not> grad_enabled w_k \<and> state_dict model_k = state_dict model"
    by (simp add: eval_enter_def state_dict_def)
  show "case evaluate lib val_loader model w of
      (e, model', w') \<Rightarrow> state_dict model' = state_dict model \<and> \<not> training model' \<and>
         grad_enabled w' = grad_enabled w"
    by (cases lib val_loader model w rule: evaluate_cases) (simp_all add: emit_def state_dict_def)
qed

section \<open>The training loop\<close>

lemma emit_emit: "emit evs' (emit evs w) = emit (evs @ evs') w"
  by (simp add: emit_def)

lemma emit_Nil: "emit [] w = w"
  by (simp add: emit_def)

lemma train_batch_has_attrs:
  assumes "has_attrs b"
  shows "train_batch lib epoch num_epochs n i b ((loss_hist, step_hist), mo, w) =
    (let label = map (\<lambda>row. row ! 2) (snd b);
         loss = criterion lib (forward lib (fst mo) (fst b)) label;
         (optimizer', model') = step lib (snd mo) (backward lib (fst mo) (fst b) label) (fst mo)
     in if Suc i mod 100 = 0
        then Inr ((loss_hist @ [loss], step_hist @ [Suc i]), (model', optimizer'),
                  emit (progress_events epoch num_epochs n [(Suc i, loss)]) w)
        else Inr ((loss_hist, step_hist), (model', optimizer'), w))"
  using has_attrs_columns [OF assms]
  by (cases b; cases mo) (simp add: train_batch_def progress_events_def Let_def split: prod.splits)

lemma train_batch_not_has_attrs:
  assumes "\<not> has_attrs b"
  shows "train_batch lib epoch num_epochs n i b st = Inl IndexError"
proof -
  from assms have "column 20 (snd b) = Inl IndexError"
    by (simp add: has_attrs_def column_Inl)
  then show ?thesis
    by (cases b; cases st) (auto simp: train_batch_def column_def split: sum.splits prod.splits)
qed

lemma train_loop_has_attrs:
  assumes "list_all has_attrs bs"
  shows "\<exists>mo'. train_loop lib epoch num_epochs n i bs ((loss_hist, step_hist), mo, w) =
    (None, (loss_hist @ map snd (logged_from lib i bs mo),
            step_hist @ map fst (logged_from lib i bs mo)), mo',
     emit (progress_events epoch num_epochs n (logged_from lib i bs mo)) w)"
  using assms
proof (induction bs arbitrary: i loss_hist step_hist mo w)
  case Nil
  then show ?case by (simp add: logged_from_def progress_events_def emit_Nil)
next
  case (Cons b bs)
  then have b: "has_attrs b" and bs: "list_all has_attrs bs" by simp_all
  define label where "label = map (\<lambda>row. row ! 2) (snd b)"
  define loss where "loss = criterion lib (forward lib (fst mo) (fst b)) label"
  obtain optimizer' model' where st:
    "step lib (snd mo) (backward lib (fst mo) (fst b) label) (fst mo) = (optimizer', model')"
    by (cases "step lib (snd mo) (backward lib (fst mo) (fst b) label) (fst mo)")
  have upt: "[Suc i..<Suc i + length (b # bs)] = Suc i # [Suc (Suc i)..<Suc (Suc i) + length bs]"
    by (simp add: upt_conv_Cons del: upt_Suc)
  have lg: "logged_from lib i (b # bs) mo =
      (if Suc i mod 100 = 0 then [(Suc i, loss)] else []) @ logged_from lib (Suc i) bs (model', optimizer')"
    unfolding logged_from_def upt
    by (simp add: Let_def label_def [symmetric] loss_def [symmetric] st)
  show ?case
  proof (cases "Suc i mod 100 = 0")
    case True
    from Cons.IH [OF bs, of "Suc i" "loss_hist @ [loss]" "step_hist @ [Suc i]" "(model', optimizer')"
        "emit (progress_events epoch num_epochs n [(Suc i, loss)]) w"]
    show ?thesis
      using True
      by (simp add: train_batch_has_attrs [OF b] Let_def label_def [symmetric] loss_def [symmetric]
          st lg emit_emit progress_events_def)
  next
    case False
    from Cons.IH [OF bs, of "Suc i" loss_hist step_hist "(model', optimizer')" w]
    show ?thesis
      using False
      by (simp add: train_batch_has_attrs [OF b] Let_def label_def [symmetric] loss_def [symmetric]
          st lg)
  qed
qed

lemma logged_from_0: "logged_from lib 0 bs mo = logged lib bs mo"
  by (simp add: logged_from_def logged_def)

lemma map_fst_filter_zip:
  "length xs = length ys \<Longrightarrow>
   map fst (filter (\<lambda>(k, l). P k) (zip xs ys)) = filter P xs"
  by (induction xs ys rule: list_induct2) simp_all

lemma length_batch_losses: "length (batch_losses lib bs mo) = length bs"
  by (induction bs arbitrary: mo) (simp_all add: Let_def split: prod.splits)

lemma logged_steps:
  "map fst (logged lib bs mo) = filter (\<lambda>k. k mod 100 = 0) [1..<Suc (length bs)]"
  unfolding logged_def by (rule map_fst_filter_zip) (simp add: length_batch_losses del: upt_Suc)

lemma train_batch_events:
  assumes "train_batch lib epoch num_epochs n i b (h, mo, w) = Inr (h1, mo1, w1)"
  shows "\<exists>evs. w1 = emit evs w \<and> list_all is_progress evs"
proof (cases "has_attrs b")
  case False
  from train_batch_not_has_attrs [OF False, of lib epoch num_epochs n i "(h, mo, w)"] assms
  show ?thesis by simp
next
  case True
  obtain loss_hist step_hist where h: "h = (loss_hist, step_hist)" by (cases h)
  show ?thesis
  proof (cases "Suc i mod 100 = 0")
    case log: True
    with assms have "\<exists>l. w1 = emit (progress_events epoch num_epochs n [(Suc i, l)]) w"
      by (auto simp: h train_batch_has_attrs [OF True] Let_def split: prod.splits)
    then obtain l where "w1 = emit (progress_events epoch num_epochs n [(Suc i, l)]) w" ..
    moreover have "list_all is_progress (progress_events epoch num_epochs n [(Suc i, l)] :: 'a event list)"
      by (simp add: progress_events_def)
    ultimately show ?thesis by blast
  next
    case False
    with assms have "w1 = emit [] w"
      by (auto simp: h train_batch_has_attrs [OF True] Let_def emit_Nil split: prod.splits)
    then show ?thesis by (intro exI [of _ "[]"]) simp
  qed
qed

lemma train_loop_events:
  "train_loop lib epoch num_epochs n i bs (h, mo, w) = (e, h', mo', w') \<Longrightarrow>
   \<exists>evs. w' = emit evs w \<and> list_all is_progress evs"
proof (induction bs arbitrary: i h mo w)
  case Nil
  then have "w' = emit [] w" by (simp add: emit_Nil)
  then show ?case by (intro exI [of _ "[]"]) simp
next
  case (Cons b bs)
  show ?case
  proof (cases "train_batch lib epoch num_epochs n i b (h, mo, w)")
    case (Inl err)
    with Cons.prems have "w' = emit [] w" by (simp add: emit_Nil)
    then show ?thesis by (intro exI [of _ "[]"]) simp
  next
    case (Inr st)
    obtain h1 mo1 w1 where st: "st = (h1, mo1, w1)" by (cases st)
    from Inr st obtain evs1 where w1: "w1 = emit evs1 w" and p1: "list_all is_progress evs1"
      using train_batch_events by blast
    from Cons.prems Inr st
    have "train_loop lib epoch num_epochs n (Suc i) bs (h1, mo1, w1) = (e, h', mo', w')" by simp
    from Cons.IH [OF this] obtain evs where "w' = emit evs w1" "list_all is_progress evs" by blast
    with w1 p1 have "w' = emit (evs1 @ evs) w \<and> list_all is_progress (evs1 @ evs)"
      by (simp add: emit_emit)
    then show ?thesis by blast
  qed
qed

lemma is_progress_kinds:
  "list_all is_progress evs \<Longrightarrow>
   list_all (\<lambda>ev. \<not> is_save ev) evs \<and> filter is_savefig evs = []"
proof (induction evs)
  case Nil
  then show ?case by simp
next
  case (Cons ev evs)
  then show ?case by (cases ev rule: is_progress.cases) simp_all
qed

lemma progress_events_kinds:
  "list_all is_progress (progress_events epoch num_epochs n kls :: 'w event list)"
  by (induction kls) (auto simp: progress_events_def)

lemma train_epoch_has_attrs:
  assumes "list_all has_attrs bs"
  shows "\<exists>mo'. train_loop lib epoch num_epochs (length bs) 0 bs (([], []), mo, w) =
         (None, (map snd (logged lib bs mo), map fst (logged lib bs mo)), mo',
          emit (progress_events epoch num_epochs (length bs) (logged lib bs mo)) w)"
  using train_loop_has_attrs [OF assms, of lib epoch num_epochs "length bs" 0 "[]" "[]" mo w]
  by (simp add: logged_from_0)

text \<open>
  C6. In an epoch over batches that have the attribute columns, the steps that are
  logged are exactly the multiples of 100 among \<open>1, ..., n\<close>: for each of them, in
  order, the progress line with the epoch, the step and the loss of that batch is
  printed and appended to the log file, and the plot saved at the end of the epoch holds
  exactly these steps and losses. No other event is produced by the epoch.
\<close>

theorem train_epoch_logging:
  assumes "list_all has_attrs (train_loader epoch)"
  shows "let bs = train_loader epoch;
             lg = logged lib bs mo
         in (\<exists>mo'. train_epochs lib train_loader num_epochs [epoch] (mo, w) =
               (None, mo',
                emit (progress_events epoch num_epochs (length bs) lg @
                      [Savefig experiment_name (epoch + 1) (map fst lg) (map snd lg)]) w)) \<and>
            map fst lg = filter (\<lambda>k. k mod 100 = 0) [1..<Suc (length bs)] \<and>
            length (map snd lg) = length (map fst lg)"
proof -
  from train_epoch_has_attrs [OF assms, of lib epoch num_epochs mo w]
  obtain mo' where "train_loop lib epoch num_epochs (length (train_loader epoch)) 0
      (train_loader epoch) (([], []), mo, w) =
         (None, (map snd (logged lib (train_loader epoch) mo),
                 map fst (logged lib (train_loader epoch) mo)), mo',
          emit (progress_events epoch num_epochs (length (train_loader epoch))
                  (logged lib (train_loader epoch) mo)) w)" ..
  then have "train_epochs lib train_loader num_epochs [epoch] (mo, w) =
      (None, mo',
       emit (progress_events epoch num_epochs (length (train_loader epoch))
               (logged lib (train_loader epoch) mo) @
             [Savefig experiment_name (epoch + 1) (map fst (logged lib (train_loader epoch) mo))
                (map snd (logged lib (train_loader epoch) mo))]) w)"
    by (simp add: make_plots_def emit_emit)
  then have run: "\<exists>mo'. train_epochs lib train_loader num_epochs [epoch] (mo, w) =
      (None, mo',
       emit (progress_events epoch num_epochs (length (train_loader epoch))
               (logged lib (train_loader epoch) mo) @
             [Savefig experiment_name (epoch + 1) (map fst (logged lib (train_loader epoch) mo))
                (map snd (logged lib (train_loader epoch) mo))]) w)" ..
  have steps: "map fst (logged lib (train_loader epoch) mo) =
      filter (\<lambda>k. k mod 100 = 0) [1..<Suc (length (train_loader epoch))]"
    by (rule logged_steps)
  have len: "length (map snd (logged lib (train_loader epoch) mo)) =
      length (map fst (logged lib (train_loader epoch) mo))"
    by simp
  show ?thesis
    unfolding Let_def by (intro conjI run steps len)
qed

lemma train_epochs_has_attrs:
  fixes w :: "'w world"
  assumes "list_all (\<lambda>k. list_all has_attrs (train_loader k)) epochs"
  shows "\<exists>mo' evs. train_epochs lib train_loader num_epochs epochs (mo, w) = (None, mo', emit evs w) \<and>
           list_all (\<lambda>ev. \<not> is_save ev) evs \<and> length (filter is_savefig evs) = length epochs"
  using assms
proof (induction epochs arbitrary: mo w)
  case Nil
  have "train_epochs lib train_loader num_epochs [] (mo, w) = (None, mo, emit [] w)"
    by (simp add: emit_Nil)
  then show ?case by (intro exI [of _ mo] exI [of _ "[]"]) simp
next
  case (Cons epoch epochs)
  then have ep: "list_all has_attrs (train_loader epoch)"
    and eps: "list_all (\<lambda>k. list_all has_attrs (train_loader k)) epochs" by simp_all
  define bs where "bs = train_loader epoch"
  define lg where "lg = logged lib bs mo"
  define evs1 :: "'w event list" where "evs1 = progress_events epoch num_epochs (length bs) lg"
  define plot :: "'w event" where "plot = Savefig experiment_name (epoch + 1) (map fst lg) (map snd lg)"
  from train_epoch_has_attrs [OF ep, of lib epoch num_epochs mo w]
  obtain mo1 where loop: "train_loop lib epoch num_epochs (length bs) 0 bs (([], []), mo, w) =
      (None, (map snd lg, map fst lg), mo1, emit evs1 w)"
    unfolding bs_def lg_def evs1_def by blast
  from Cons.IH [OF eps, of mo1 "emit (evs1 @ [plot]) w"]
  obtain mo' evs where rest:
    "train_epochs lib train_loader num_epochs epochs (mo1, emit (evs1 @ [plot]) w) =
       (None, mo', emit evs (emit (evs1 @ [plot]) w))"
    and ns: "list_all (\<lambda>ev. \<not> is_save ev) evs"
    and nf: "length (filter is_savefig evs) = length epochs" by blast
  have k1: "list_all (\<lambda>ev. \<not> is_save ev) evs1 \<and> filter is_savefig evs1 = []"
    unfolding evs1_def by (rule is_progress_kinds) (rule progress_events_kinds)
  have run: "train_epochs lib train_loader num_epochs (epoch # epochs) (mo, w) =
      (None, mo', emit ((evs1 @ [plot]) @ evs) w)"
    using loop rest
    by (simp add: bs_def [symmetric] make_plots_def emit_emit plot_def)
  have "list_all (\<lambda>ev. \<not> is_save ev) ((evs1 @ [plot]) @ evs)"
    using k1 ns by (simp add: plot_def)
  moreover have "length (filter is_savefig ((evs1 @ [plot]) @ evs)) = length (epoch # epochs)"
    using k1 nf by (simp add: plot_def)
  ultimately show ?case using run by blast
qed

lemma train_epochs_events:
  "train_epochs lib train_loader num_epochs epochs (mo, w) = (e, mo', w') \<Longrightarrow>
   \<exists>evs. w' = emit evs w \<and> list_all (\<lambda>ev. \<not> is_save ev) evs"
proof (induction epochs arbitrary: mo w)
  case Nil
  then have "w' = emit [] w" by (simp add: emit_Nil)
  then show ?case by (intro exI [of _ "[]"]) simp
next
  case (Cons epoch epochs)
  obtain e1 h1 mo1 w1 where loop:
    "train_loop lib epoch num_epochs (length (train_loader epoch)) 0 (train_loader epoch)
       (([], []), mo, w) = (e1, h1, mo1, w1)"
    using prod_cases4 by blast
  from train_loop_events [OF loop] obtain evs1 where w1: "w1 = emit evs1 w"
    and p1: "list_all is_progress evs1" by blast
  from is_progress_kinds [OF p1] have ns1: "list_all (\<lambda>ev. \<not> is_save ev) evs1" by simp
  show ?case
  proof (cases e1)
    case (Some err)
    with Cons.prems loop have "w' = w1" by simp
    with w1 ns1 show ?thesis by blast
  next
    case None
    obtain loss_hist step_hist where h1: "h1 = (loss_hist, step_hist)" by (cases h1)
    from Cons.prems loop None h1
    have "train_epochs lib train_loader num_epochs epochs
            (mo1, make_plots step_hist loss_hist epoch w1) = (e, mo', w')" by simp
    from Cons.IH [OF this] obtain evs where "w' = emit evs (make_plots step_hist loss_hist epoch w1)"
      and ns: "list_all (\<lambda>ev. \<not> is_save ev) evs" by blast
    then have "w' = emit (evs1 @ [Savefig experiment_name (epoch + 1) step_hist loss_hist] @ evs) w"
      by (simp add: w1 make_plots_def emit_emit)
    moreover have "list_all (\<lambda>ev. \<not> is_save ev)
        (evs1 @ [Savefig experiment_name (epoch + 1) step_hist loss_hist] @ evs)"
      using ns1 ns by simp
    ultimately show ?thesis by blast
  qed
qed

lemma train_raise_no_checkpoint:
  assumes "train lib train_loader mo num_epochs w = (Some e, mo', w')"
  shows "\<exists>evs. w' = emit evs w \<and> list_all (\<lambda>ev. \<not> is_save ev) evs"
proof -
  obtain e1 mo1 w1 where ep:
    "train_epochs lib train_loader num_epochs [0..<num_epochs] (mo, w) = (e1, mo1, w1)"
    using prod_cases3 by blast
  with assms have "e1 = Some e \<and> w1 = w'"
    by (cases e1) (auto simp: train_def)
  with train_epochs_events [OF ep] show ?thesis by simp
qed

text \<open>
  C7. On loaders whose batches have the attribute columns, \<^verbatim>\<open>train\<close> returns
  normally and saves the checkpoint exactly once, as its last event, after the plots of
  all \<open>num_epochs\<close> epochs; the saved state is that of the final network. (By
  \<open>train_raise_no_checkpoint\<close>, a run that raises saves no checkpoint.)
\<close>

theorem train_saves_checkpoint_once:
  assumes "\<forall>k<num_epochs. list_all has_attrs (train_loader k)"
  shows "\<exists>mo' evs.
           train lib train_loader mo num_epochs w =
             (None, mo',
              emit (evs @ [Save (experiment_name @ ''.ckpt'') (state_dict (fst mo'))]) w) \<and>
           list_all (\<lambda>ev. \<not> is_save ev) evs \<and>
           length (filter is_savefig evs) = num_epochs"
proof -
  from assms have "list_all (\<lambda>k. list_all has_attrs (train_loader k)) [0..<num_epochs]"
    by (simp add: list_all_iff)
  from train_epochs_has_attrs [OF this, of lib num_epochs mo w]
  obtain mo' evs where
    ep: "train_epochs lib train_loader num_epochs [0..<num_epochs] (mo, w) = (None, mo', emit evs w)"
    and ns: "list_all (\<lambda>ev. \<not> is_save ev) evs"
    and nf: "length (filter is_savefig evs) = num_epochs" by auto
  from ep have "train lib train_loader mo num_epochs w =
      (None, mo', emit (evs @ [Save (experiment_name @ ''.ckpt'') (state_dict (fst mo'))]) w)"
    by (simp add: train_def emit_emit)
  with ns nf show ?thesis by blast
qed

lemma demo_losses:
  "batch_losses demo_lib (replicate n ([0], [attrs 1 1])) (m, opt) = replicate n 1"
  by (induction n arbitrary: opt) (simp_all add: demo_lib_def Let_def)

lemma filter_zip_hundred:
  "filter (\<lambda>(k, l). k mod 100 = 0) (zip [1..<Suc 100] (replicate 100 (1::real))) = [(100, 1)]"
  by code_simp

lemma demo_hundred_logged: "logged demo_lib (demo_hundred 0) (demo_net, 0) = [(100, 1)]"
  by (simp only: logged_def demo_hundred_def demo_losses length_replicate filter_zip_hundred)

lemma demo_hundred_attrs: "list_all has_attrs (demo_hundred 0)"
  by (simp add: demo_hundred_def has_attrs_def attrs_def list_all_iff)

theorem train_epoch_logging_witness:
  "list_all has_attrs (demo_hundred 0) \<and>
   (\<exists>mo'. train_epochs demo_lib demo_hundred 1 [0] ((demo_net, 0), demo_world) =
      (None, mo',
       emit [Print (Progress 1 1 100 100 1),
             Append (experiment_name @ ''.txt'') (Progress 1 1 100 100 1),
             Savefig experiment_name 1 [100] [1]] demo_world)) \<and>
   filter (\<lambda>k. k mod 100 = 0) [1..<Suc (length (demo_hundred 0))] = [100]"
proof -
  have h: "list_all has_attrs (demo_hundred 0)" by (rule demo_hundred_attrs)
  have len: "length (demo_hundred 0) = 100" by (simp add: demo_hundred_def)
  have ev: "progress_events 0 1 (length (demo_hundred 0))
              (logged demo_lib (demo_hundred 0) (demo_net, 0)) @
            [Savefig experiment_name (0 + 1)
               (map fst (logged demo_lib (demo_hundred 0) (demo_net, 0)))
               (map snd (logged demo_lib (demo_hundred 0) (demo_net, 0)))] =
            [Print (Progress 1 1 100 100 1),
             Append (experiment_name @ ''.txt'') (Progress 1 1 100 100 1),
             Savefig experiment_name 1 [100] [1 :: real] :: nat event]"
    by (simp add: demo_hundred_logged len progress_events_def)
  have st: "map fst (logged demo_lib (demo_hundred 0) (demo_net, 0)) = [100]"
    by (simp add: demo_hundred_logged)
  note T = train_epoch_logging [where train_loader = demo_hundred and epoch = 0
      and lib = demo_lib and mo = "(demo_net, 0)" and num_epochs = 1 and w = demo_world,
      OF h, unfolded Let_def]
  from T have "\<exists>mo'. train_epochs demo_lib demo_hundred 1 [0] ((demo_net, 0), demo_world) =
      (None, mo',
       emit (progress_events 0 1 (length (demo_hundred 0))
               (logged demo_lib (demo_hundred 0) (demo_net, 0)) @
             [Savefig experiment_name (0 + 1)
                (map fst (logged demo_lib (demo_hundred 0) (demo_net, 0)))
                (map snd (logged demo_lib (demo_hundred 0) (demo_net, 0)))]) demo_world)"
    by (rule conjunct1)
  then have run: "\<exists>mo'. train_epochs demo_lib demo_hundred 1 [0] ((demo_net, 0), demo_world) =
      (None, mo',
       emit [Print (Progress 1 1 100 100 1),
             Append (experiment_name @ ''.txt'') (Progress 1 1 100 100 1),
             Savefig experiment_name 1 [100] [1]] demo_world)"
    unfolding ev .
  from T have "map fst (logged demo_lib (demo_hundred 0) (demo_net, 0)) =
      filter (\<lambda>k. k mod 100 = 0) [1..<Suc (length (demo_hundred 0))]"
    by blast
  then have steps: "filter (\<lambda>k. k mod 100 = 0) [1..<Suc (length (demo_hundred 0))] = [100]"
    unfolding st by (rule sym)
  show ?thesis by (intro conjI h run steps)
qed

theorem train_saves_checkpoint_once_witness:
  "list_all has_attrs (demo_single 0) \<and> list_all has_attrs (demo_single 1) \<and>
   (\<exists>mo' evs.
      train demo_lib demo_single (demo_net, 0) 2 demo_world =
        (None, mo',
         emit (evs @ [Save (experiment_name @ ''.ckpt'') (state_dict (fst mo'))]) demo_world) \<and>
      list_all (\<lambda>ev. \<not> is_save ev) evs \<and>
      length (filter is_savefig evs) = 2)"
proof -
  have h: "\<forall>k<2. list_all has_attrs (demo_single k)"
    by (simp add: demo_single_def has_attrs_def attrs_def)
  have h0: "list_all has_attrs (demo_single 0)" and h1: "list_all has_attrs (demo_single 1)"
    by (simp_all add: demo_single_def has_attrs_def attrs_def)
  from train_saves_checkpoint_once [where train_loader = demo_single and num_epochs = 2
      and lib = demo_lib and mo = "(demo_net, 0)" and w = demo_world, OF h] h0 h1
  show ?thesis by blast
qed

section \<open>The covariate is not used\<close>

lemma cov_variant_rows:
  assumes "list_all2 (\<lambda>r r'. r' = r[20 := r' ! 20]) rows rows'"
  shows "map (\<lambda>row. row ! 2) rows' = map (\<lambda>row. row ! 2) rows"
    and "list_all (\<lambda>row. j < length row) rows' = list_all (\<lambda>row. j < length row) rows"
  using assms
proof (induction rows rows' rule: list_all2_induct)
  case Nil
  { case 1 show ?case by simp }
  { case 2 show ?case by simp }
next
  case (Cons r rs r' rs')
  from Cons.hyps(1) obtain x where r': "r' = r[20 := x]" by blast
  have len: "length r' = length r" by (simp add: r')
  have two: "r' ! 2 = r ! 2" by (simp add: r')
  { case 1 from Cons.IH(1) two show ?case by simp }
  { case 2 from Cons.IH(2) len show ?case by simp }
qed

lemma cov_variant_facts:
  assumes "cov_variant b b'"
  shows "fst b' = fst b"
    and "column 2 (snd b') = column 2 (snd b)"
    and "has_attrs b' = has_attrs b"
  using assms cov_variant_rows [of "snd b" "snd b'"]
  by (simp_all add: cov_variant_def column_def has_attrs_def)

lemma cov_variant_train_batch:
  assumes "cov_variant b b'"
  shows "train_batch lib epoch num_epochs n i b' st = train_batch lib epoch num_epochs n i b st"
proof (cases "has_attrs b")
  case True
  with cov_variant_facts [OF assms] have b': "has_attrs b'" by simp
  obtain loss_hist step_hist mo w where st: "st = ((loss_hist, step_hist), mo, w)"
    by (cases st) auto
  from cov_variant_facts(2) [OF assms] has_attrs_columns(1) [OF True] has_attrs_columns(1) [OF b']
  have lab: "map (\<lambda>row. row ! 2) (snd b') = map (\<lambda>row. row ! 2) (snd b)" by simp
  show ?thesis
    unfolding st train_batch_has_attrs [OF True] train_batch_has_attrs [OF b']
    by (simp only: lab cov_variant_facts(1) [OF assms])
next
  case False
  with cov_variant_facts [OF assms] have "\<not> has_attrs b'" by simp
  with False show ?thesis by (simp add: train_batch_not_has_attrs)
qed

lemma cov_variant_eval_batch:
  assumes "cov_variant b b'"
  shows "eval_batch lib b' st = eval_batch lib b st"
proof -
  obtain images labels where b: "b = (images, labels)" by (cases b)
  obtain images' labels' where b': "b' = (images', labels')" by (cases b')
  obtain t m w where st: "st = (t, m, w)" by (cases st)
  from cov_variant_facts [OF assms] have im: "images' = images"
    and c2: "column 2 labels' = column 2 labels"
    and ha: "has_attrs (images', labels') = has_attrs (images, labels)"
    by (simp_all add: b b')
  show ?thesis
  proof (cases "has_attrs (images, labels)")
    case True
    with ha have True': "has_attrs (images', labels')" by simp
    from has_attrs_columns(2) [OF True] has_attrs_columns(2) [OF True'] c2 im
    show ?thesis
      by (simp add: eval_batch_def b b' st split: sum.splits)
  next
    case False
    with ha have False': "\<not> has_attrs (images', labels')" by simp
    from False have "column 20 labels = Inl IndexError" by (simp add: has_attrs_def column_Inl)
    moreover from False' have "column 20 labels' = Inl IndexError"
      by (simp add: has_attrs_def column_Inl)
    ultimately show ?thesis using c2 im
      by (simp add: eval_batch_def b b' st split: sum.splits)
  qed
qed

lemma cov_variant_eval_loop:
  assumes "list_all2 cov_variant bs bs'"
  shows "eval_loop lib bs' st = eval_loop lib bs st"
  using assms
proof (induction bs bs' arbitrary: st rule: list_all2_induct)
  case Nil
  show ?case by simp
next
  case (Cons b bs b' bs')
  show ?case
    by (simp add: cov_variant_eval_batch [OF Cons.hyps(1)] Cons.IH split: sum.splits)
qed

lemma cov_variant_train_loop:
  assumes "list_all2 cov_variant bs bs'"
  shows "train_loop lib epoch num_epochs n i bs' st = train_loop lib epoch num_epochs n i bs st"
  using assms
proof (induction bs bs' arbitrary: i st rule: list_all2_induct)
  case Nil
  show ?case by simp
next
  case (Cons b bs b' bs')
  show ?case
    by (simp add: cov_variant_train_batch [OF Cons.hyps(1)] Cons.IH split: sum.splits)
qed

lemma cov_variant_train_epochs:
  assumes "\<forall>k. list_all2 cov_variant (L k) (L' k)"
  shows "train_epochs lib L' num_epochs epochs st = train_epochs lib L num_epochs epochs st"
proof (induction epochs arbitrary: st)
  case Nil
  show ?case by simp
next
  case (Cons epoch epochs)
  from assms have v: "list_all2 cov_variant (L epoch) (L' epoch)" by simp
  then have len: "length (L' epoch) = length (L epoch)" by (simp add: list_all2_lengthD)
  show ?case
    by (simp add: len cov_variant_train_loop [OF v] Cons.IH split: prod.splits option.splits)
qed

text \<open>
  C9. Two loaders that differ only in the covariate column give the same result of
  \<^verbatim>\<open>train\<close> and of \<^verbatim>\<open>evaluate\<close>: the same exception if any, the same
  network and optimizer, and the same outputs in the same order (progress lines with
  their losses, plots, checkpoint, F1 score and accuracy).
\<close>

theorem covariate_unused:
  assumes "\<forall>k. list_all2 cov_variant (L k) (L' k)"
  shows "train lib L' mo num_epochs w = train lib L mo num_epochs w \<and>
         evaluate lib L' model w = evaluate lib L model w"
proof
  show "train lib L' mo num_epochs w = train lib L mo num_epochs w"
    by (simp add: train_def cov_variant_train_epochs [OF assms])
  from assms have "list_all2 cov_variant (L 0) (L' 0)" by simp
  then show "evaluate lib L' model w = evaluate lib L model w"
    by (simp add: evaluate_def cov_variant_eval_loop)
qed

theorem covariate_unused_witness:
  "(\<forall>k. list_all2 cov_variant (demo_single k) (demo_flipped k)) \<and>
   demo_flipped 0 \<noteq> demo_single 0 \<and>
   train demo_lib demo_flipped (demo_net, 0) 2 demo_world =
     train demo_lib demo_single (demo_net, 0) 2 demo_world \<and>
   evaluate demo_lib demo_flipped demo_net demo_world =
     evaluate demo_lib demo_single demo_net demo_world"
proof -
  have v: "\<forall>k. list_all2 cov_variant (demo_single k) (demo_flipped k)"
    by (simp add: demo_single_def demo_flipped_def cov_variant_def attrs_def)
  have "hd (snd (hd (demo_flipped 0))) ! 20 \<noteq> hd (snd (hd (demo_single 0))) ! 20"
    by (simp add: demo_single_def demo_flipped_def attrs_def)
  then have d: "demo_flipped 0 \<noteq> demo_single 0"
    by (rule contrapos_nn) simp
  from covariate_unused [where L = demo_single and L' = demo_flipped, OF v] v d
  show ?thesis by blast
qed

section \<open>The entry point\<close>

lemma evaluate_events:
  "\<exists>e evs. evaluate lib val_loader model w = (e, model\<lparr>training := False\<rparr>, emit evs w) \<and>
     list_all (\<lambda>ev. \<not> is_save ev \<and> \<not> is_savefig ev \<and> \<not> is_progress ev) evs"
proof (cases lib val_loader model w rule: evaluate_cases)
  case (raised e)
  then have "evaluate lib val_loader model w = (Some e, model\<lparr>training := False\<rparr>, emit [] w)"
    by (simp add: emit_Nil)
  then show ?thesis by (intro exI [of _ "Some e"] exI [of _ "[]"]) simp
next
  case (empty f)
  then show ?thesis
    by (intro exI [of _ "Some ZeroDivisionError"] exI [of _ "[Print (F1_Score f)]"]) simp
next
  case (reported f a)
  then show ?thesis
    by (intro exI [of _ None]
        exI [of _ "[Print (F1_Score f), Print (Validation_accuracy a), Print (F1_Score f),
                    Append (experiment_name @ ''.txt'') (Validation_accuracy a)]"]) simp
qed

text \<open>
  C10. Every event of a run of \<^verbatim>\<open>main\<close> is a print or an append of a line that
  is not a progress line: no checkpoint and no plot is saved and no training step is
  logged. When \<^verbatim>\<open>initialize_model\<close> raises, \<^verbatim>\<open>main\<close> stops there; otherwise
  the network has the new linear layer with its initial weights at index 6 of the
  classifier, and the rest of the run is \<^verbatim>\<open>evaluate\<close> on the validation loader
  with that network.
\<close>

theorem main_never_trains:
  "(\<exists>evs. snd (main lib pretrained w) = emit evs w \<and>
      list_all (\<lambda>ev. \<not> is_save ev \<and> \<not> is_savefig ev \<and> \<not> is_progress ev) evs) \<and>
   (case initialize_model lib pretrained (1 / 1000) 2 of
      Inl e \<Rightarrow>
        main lib pretrained w =
          (Some e, emit [Print (Text ''Loading data...''),
                         Print (Text ''Initializing model...'')] w)
    | Inr (model, optimizer) \<Rightarrow>
        (\<exists>n. classifier model ! 6 = Linear n 2 (linear_init lib n 2)) \<and>
        main lib pretrained w =
          (case evaluate lib (celeba_loader lib ''valid'' 8 False) model
                  (emit [Print (Text ''Loading data...''),
                         Print (Text ''Initializing model...''),
                         Print (Text ''Start evaluating... \<newline>'')] w) of
             (e, model', w') \<Rightarrow> (e, w')))"
proof (cases "initialize_model lib pretrained (1 / 1000) 2")
  case (Inl e)
  then have m: "main lib pretrained w =
      (Some e, emit [Print (Text ''Loading data...''), Print (Text ''Initializing model...'')] w)"
    by (simp add: main_def load_data_def emit_emit Let_def)
  then have "snd (main lib pretrained w) =
      emit [Print (Text ''Loading data...''), Print (Text ''Initializing model...'')] w \<and>
      list_all (\<lambda>ev. \<not> is_save ev \<and> \<not> is_savefig ev \<and> \<not> is_progress ev)
        [Print (Text ''Loading data...''), Print (Text ''Initializing model...'') :: 'a event]"
    by simp
  then have "\<exists>evs. snd (main lib pretrained w) = emit evs w \<and>
      list_all (\<lambda>ev. \<not> is_save ev \<and> \<not> is_savefig ev \<and> \<not> is_progress ev) evs"
    by blast
  with Inl m show ?thesis by simp
next
  case (Inr r)
  obtain model optimizer where r: "r = (model, optimizer)" by (cases r)
  define w3 where "w3 = emit [Print (Text ''Loading data...''),
      Print (Text ''Initializing model...''), Print (Text ''Start evaluating... \<newline>'')] w"
  from Inr r have head: "\<exists>n. classifier model ! 6 = Linear n 2 (linear_init lib n 2)"
    by (cases "classifier pretrained ! 6")
      (auto simp: initialize_model_def Let_def split: if_splits)
  from Inr r have m: "main lib pretrained w =
      (case evaluate lib (celeba_loader lib ''valid'' 8 False) model w3 of
         (e, model', w') \<Rightarrow> (e, w'))"
    by (simp add: main_def load_data_def emit_emit Let_def w3_def)
  from evaluate_events [of lib "celeba_loader lib ''valid'' 8 False" model w3]
  obtain e evs where ev: "evaluate lib (celeba_loader lib ''valid'' 8 False) model w3 =
      (e, model\<lparr>training := False\<rparr>, emit evs w3)"
    and k: "list_all (\<lambda>ev. \<not> is_save ev \<and> \<not> is_savefig ev \<and> \<not> is_progress ev) evs"
    by blast
  from m ev have "snd (main lib pretrained w) =
      emit ([Print (Text ''Loading data...''), Print (Text ''Initializing model...''),
             Print (Text ''Start evaluating... \<newline>'')] @ evs) w"
    by (simp add: w3_def emit_emit)
  moreover from k have "list_all (\<lambda>ev. \<not> is_save ev \<and> \<not> is_savefig ev \<and> \<not> is_progress ev)
      ([Print (Text ''Loading data...''), Print (Text ''Initializing model...''),
        Print (Text ''Start evaluating... \<newline>'')] @ evs)"
    by simp
  ultimately have "\<exists>evs. snd (main lib pretrained w) = emit evs w \<and>
      list_all (\<lambda>ev. \<not> is_save ev \<and> \<not> is_savefig ev \<and> \<not> is_progress ev) evs"
    by blast
  with Inr r head m show ?thesis by (simp add: w3_def)
qed

end
